theory Spec2Isabelle
  imports Main "HOL-Library.Product_Lexorder"
begin

text \<open>
  A model of the journaling application: its two tables, the handlers that read and write
  day entries, the resolution of a token to a user, and the calendar grid. Handlers are
  functions of the store; a handler that raises returns the exception instead of a result.
\<close>

section \<open>Python values used by the application\<close>

text \<open>
  A Python \<open>str\<close> is a list of characters; the model covers the code points below 256.
  A \<open>date\<close> is the triple (year, month, day), ordered as Python orders dates, that is
  lexicographically. A \<open>datetime\<close> is a reading of the clock (\<open>datetime.utcnow\<close>),
  in microseconds.
\<close>

type_synonym date = "int \<times> int \<times> int"
type_synonym datetime = int

text \<open>\<open>str.isspace\<close> on one character, for the code points below 256.\<close>

definition isspace :: "char \<Rightarrow> bool" where
  "isspace c \<longleftrightarrow> (of_char c :: nat) \<in> {9, 10, 11, 12, 13, 28, 29, 30, 31, 32, 133, 160}"

text \<open>\<open>str.strip()\<close> without argument removes leading and trailing whitespace.\<close>

definition lstrip :: "string \<Rightarrow> string" where
  "lstrip s = dropWhile isspace s"

definition rstrip :: "string \<Rightarrow> string" where
  "rstrip s = rev (dropWhile isspace (rev s))"

definition strip :: "string \<Rightarrow> string" where
  "strip s = rstrip (lstrip s)"

section \<open>Failures\<close>

text \<open>
  Every \<open>raise\<close> is a value. \<open>HTTPException\<close> carries its status code and its detail; the
  details that are f-strings keep the date they format. The other constructors are the
  exceptions that the handlers do not turn into a response.
\<close>

datatype detail =
    No_entry_found date
  | Entry_already_exists date
  | Could_not_validate_credentials

datatype exn =
    HTTPException nat detail
  | RequestValidationError
  | ValueError
  | MultipleResultsFound
  | IntegrityError

abbreviation HTTP_400_BAD_REQUEST :: nat where "HTTP_400_BAD_REQUEST \<equiv> 400"
abbreviation HTTP_401_UNAUTHORIZED :: nat where "HTTP_401_UNAUTHORIZED \<equiv> 401"
abbreviation HTTP_404_NOT_FOUND :: nat where "HTTP_404_NOT_FOUND \<equiv> 404"

section \<open>Data model (models.py)\<close>

record User =
  id_User :: int
  email :: string
  hashed_password :: string
  created_at_User :: datetime

record DayEntry =
  id_DayEntry :: int
  user_id :: int
  date :: date
  score :: int
  summary :: string
  created_at :: datetime
  updated_at :: datetime

text \<open>The two tables. A request works on one session; what it returns is committed.\<close>

record store =
  users :: "User list"
  day_entries :: "DayEntry list"

text \<open>The table constraints: primary key and \<open>uq_user_date\<close>.\<close>

definition pk_day_entries :: "store \<Rightarrow> bool" where
  "pk_day_entries db \<longleftrightarrow> distinct (map id_DayEntry (day_entries db))"

definition uq_user_date :: "store \<Rightarrow> bool" where
  "uq_user_date db \<longleftrightarrow> distinct (map (\<lambda>e. (user_id e, date e)) (day_entries db))"

definition constraints :: "store \<Rightarrow> bool" where
  "constraints db \<longleftrightarrow> pk_day_entries db \<and> uq_user_date db"

section \<open>The session: queries, inserts, updates, deletes\<close>

text \<open>\<open>select(DayEntry).where(and_(DayEntry.user_id == uid, DayEntry.date == d))\<close>\<close>

definition select_entry :: "int \<Rightarrow> date \<Rightarrow> store \<Rightarrow> DayEntry list" where
  "select_entry uid d db = filter (\<lambda>e. user_id e = uid \<and> date e = d) (day_entries db)"

text \<open>\<open>Result.scalar_one_or_none()\<close> raises when the query has more than one row.\<close>

definition scalar_one_or_none :: "'a list \<Rightarrow> exn + 'a option" where
  "scalar_one_or_none rows =
     (case rows of [] \<Rightarrow> Inr None | [r] \<Rightarrow> Inr (Some r) | _ \<Rightarrow> Inl MultipleResultsFound)"

text \<open>An autoincrement integer primary key: one more than the largest key of the table.\<close>

definition next_id :: "int list \<Rightarrow> int" where
  "next_id ids = fold max ids 0 + 1"

text \<open>
  \<open>db.add(DayEntry(user_id, date, score, summary)); db.flush(); db.refresh(entry)\<close>:
  the INSERT is refused by \<open>uq_user_date\<close> when the pair is taken; both timestamp
  columns take their default, the clock.
\<close>

definition insert_entry ::
    "datetime \<Rightarrow> int \<Rightarrow> date \<Rightarrow> int \<Rightarrow> string \<Rightarrow> store \<Rightarrow> exn + (DayEntry \<times> store)" where
  "insert_entry now uid d sc sm db =
     (if select_entry uid d db \<noteq> [] then Inl IntegrityError
      else
        let entry = \<lparr>id_DayEntry = next_id (map id_DayEntry (day_entries db)),
                     user_id = uid, date = d, score = sc, summary = sm,
                     created_at = now, updated_at = now\<rparr>
        in Inr (entry, db\<lparr>day_entries := day_entries db @ [entry]\<rparr>))"

text \<open>
  \<open>db.flush(); db.refresh(entry)\<close> after attribute assignments on a loaded row: the unit
  of work compares each assigned attribute with the loaded value and emits an UPDATE only
  for a net change. \<open>onupdate=datetime.utcnow\<close> is evaluated as part of that UPDATE
  statement, so a flush without a net change leaves \<open>updated_at\<close> as it was.
\<close>

definition flush_update :: "datetime \<Rightarrow> DayEntry \<Rightarrow> DayEntry \<Rightarrow> store \<Rightarrow> DayEntry \<times> store" where
  "flush_update now loaded entry db =
     (if score entry = score loaded \<and> summary entry = summary loaded then (loaded, db)
      else
        let row = entry\<lparr>updated_at := now\<rparr>
        in (row, db\<lparr>day_entries :=
                      map (\<lambda>r. if id_DayEntry r = id_DayEntry loaded then row else r)
                          (day_entries db)\<rparr>))"

text \<open>\<open>db.delete(entry)\<close>: DELETE by primary key.\<close>

definition delete_row :: "DayEntry \<Rightarrow> store \<Rightarrow> store" where
  "delete_row entry db =
     db\<lparr>day_entries := filter (\<lambda>r. id_DayEntry r \<noteq> id_DayEntry entry) (day_entries db)\<rparr>"

text \<open>
  \<open>get_db\<close>: the session commits when the handler returns and rolls back when it raises,
  so the store after a request is the handler's store or the one before the request.
\<close>

definition store_after :: "store \<Rightarrow> exn + ('a \<times> store) \<Rightarrow> store" where
  "store_after db r = (case r of Inl _ \<Rightarrow> db | Inr (_, db') \<Rightarrow> db')"

section \<open>Request schemas (schemas.py)\<close>

text \<open>
  A validated request body. Pydantic checks the \<open>Field\<close> constraints of a field first
  (\<open>ge\<close>, \<open>le\<close>, \<open>min_length\<close>, \<open>max_length\<close>, on the value as sent) and then runs the
  field validator \<open>strip_summary\<close> on the accepted value, since \<open>field_validator\<close> is an
  "after" validator unless told otherwise.
\<close>

datatype DayEntryCreate = DayEntryCreate date int string

datatype DayEntryUpdate = DayEntryUpdate "int option" "string option"

definition DayEntryCreate_validate :: "date \<Rightarrow> int \<Rightarrow> string \<Rightarrow> exn + DayEntryCreate" where
  "DayEntryCreate_validate d sc sm =
     (if \<not> (0 \<le> sc \<and> sc \<le> 10) then Inl RequestValidationError
      else if \<not> (1 \<le> length sm \<and> length sm \<le> 200) then Inl RequestValidationError
      else Inr (DayEntryCreate d sc (strip sm)))"

definition DayEntryUpdate_validate :: "int option \<Rightarrow> string option \<Rightarrow> exn + DayEntryUpdate" where
  "DayEntryUpdate_validate sc sm =
     (if (case sc of None \<Rightarrow> False | Some v \<Rightarrow> \<not> (0 \<le> v \<and> v \<le> 10)) then Inl RequestValidationError
      else if (case sm of None \<Rightarrow> False | Some v \<Rightarrow> \<not> (1 \<le> length v \<and> length v \<le> 200))
        then Inl RequestValidationError
      else Inr (DayEntryUpdate sc (case sm of None \<Rightarrow> None
                                   | Some v \<Rightarrow> Some (if v \<noteq> [] then strip v else v))))"

section \<open>Entry API (routers/entries.py)\<close>


definition get_entry :: "date \<Rightarrow> User \<Rightarrow> store \<Rightarrow> exn + DayEntry" where
  "get_entry entry_date current_user db =
     (case scalar_one_or_none (select_entry (id_User current_user) entry_date db) of
        Inl x \<Rightarrow> Inl x
      | Inr None \<Rightarrow> Inl (HTTPException HTTP_404_NOT_FOUND (No_entry_found entry_date))
      | Inr (Some entry) \<Rightarrow> Inr entry)"

fun create_entry :: "datetime \<Rightarrow> DayEntryCreate \<Rightarrow> User \<Rightarrow> store \<Rightarrow> exn + (DayEntry \<times> store)" where
  "create_entry now (DayEntryCreate d sc sm) current_user db =
     (case scalar_one_or_none (select_entry (id_User current_user) d db) of
        Inl x \<Rightarrow> Inl x
      | Inr (Some existing) \<Rightarrow> Inl (HTTPException HTTP_400_BAD_REQUEST (Entry_already_exists d))
      | Inr None \<Rightarrow> insert_entry now (id_User current_user) d sc sm db)"

fun update_entry ::
    "datetime \<Rightarrow> date \<Rightarrow> DayEntryUpdate \<Rightarrow> User \<Rightarrow> store \<Rightarrow> exn + (DayEntry \<times> store)" where
  "update_entry now entry_date (DayEntryUpdate sc sm) current_user db =
     (case scalar_one_or_none (select_entry (id_User current_user) entry_date db) of
        Inl x \<Rightarrow> Inl x
      | Inr None \<Rightarrow> Inl (HTTPException HTTP_404_NOT_FOUND (No_entry_found entry_date))
      | Inr (Some loaded) \<Rightarrow>
          let entry = (case sc of None \<Rightarrow> loaded | Some v \<Rightarrow> loaded\<lparr>score := v\<rparr>);
              entry = (case sm of None \<Rightarrow> entry | Some v \<Rightarrow> entry\<lparr>summary := v\<rparr>)
          in Inr (flush_update now loaded entry db))"

definition delete_entry :: "date \<Rightarrow> User \<Rightarrow> store \<Rightarrow> exn + (unit \<times> store)" where
  "delete_entry entry_date current_user db =
     (case scalar_one_or_none (select_entry (id_User current_user) entry_date db) of
        Inl x \<Rightarrow> Inl x
      | Inr None \<Rightarrow> Inl (HTTPException HTTP_404_NOT_FOUND (No_entry_found entry_date))
      | Inr (Some entry) \<Rightarrow> Inr ((), delete_row entry db))"

text \<open>The two endpoints with a request body: validation of the body, then the handler.\<close>

definition post_entries ::
    "datetime \<Rightarrow> date \<Rightarrow> int \<Rightarrow> string \<Rightarrow> User \<Rightarrow> store \<Rightarrow> exn + (DayEntry \<times> store)" where
  "post_entries now d sc sm current_user db =
     (case DayEntryCreate_validate d sc sm of
        Inl x \<Rightarrow> Inl x
      | Inr entry_data \<Rightarrow> create_entry now entry_data current_user db)"

definition put_entries ::
    "datetime \<Rightarrow> date \<Rightarrow> int option \<Rightarrow> string option \<Rightarrow> User \<Rightarrow> store
       \<Rightarrow> exn + (DayEntry \<times> store)" where
  "put_entries now entry_date sc sm current_user db =
     (case DayEntryUpdate_validate sc sm of
        Inl x \<Rightarrow> Inl x
      | Inr entry_data \<Rightarrow> update_entry now entry_date entry_data current_user db)"

section \<open>Day cells of the calendar page (routers/pages.py)\<close>

definition colors :: "(int \<times> string) list" where
  "colors = [(0, ''score-0''), (1, ''score-1''), (2, ''score-2''), (3, ''score-3''),
             (4, ''score-4''), (5, ''score-5''), (6, ''score-6''), (7, ''score-7''),
             (8, ''score-8''), (9, ''score-9''), (10, ''score-10'')]"

definition get_score_color :: "int option \<Rightarrow> string" where
  "get_score_color sc =
     (case sc of
        None \<Rightarrow> ''score-none''
      | Some v \<Rightarrow> (case map_of colors v of None \<Rightarrow> ''score-none'' | Some c \<Rightarrow> c))"

record day_data =
  date_of :: date
  day_of :: int
  entry_of :: "DayEntry option"
  score_class :: string
  is_today :: bool
  is_future :: bool

text \<open>
  The two partial templates: the entry form with an error message, and a day cell. A
  response is the status code with the template and its context.
\<close>

datatype page =
    Entry_form "DayEntry option" date string bool
  | Day_cell day_data

type_synonym response = "nat \<times> page"

text \<open>\<open>today\<close> is the value of \<open>date.today()\<close> during the request.\<close>

definition save_day_entry ::
    "date \<Rightarrow> datetime \<Rightarrow> date \<Rightarrow> User \<Rightarrow> store \<Rightarrow> int \<Rightarrow> string
       \<Rightarrow> exn + (response \<times> store)" where
  "save_day_entry today now entry_date user db sc sm =
     (if sc < 0 \<or> sc > 10 then
        Inr ((HTTP_400_BAD_REQUEST,
              Entry_form None entry_date ''Score must be between 0 and 10'' (entry_date > today)), db)
      else if length (strip sm) = 0 \<or> length sm > 200 then
        Inr ((HTTP_400_BAD_REQUEST,
              Entry_form None entry_date ''Summary must be 1-200 characters'' (entry_date > today)), db)
      else
        (case scalar_one_or_none (select_entry (id_User user) entry_date db) of
           Inl x \<Rightarrow> Inl x
         | Inr found \<Rightarrow>
             (case (case found of
                      Some loaded \<Rightarrow>
                        Inr (flush_update now loaded (loaded\<lparr>score := sc, summary := strip sm\<rparr>) db)
                    | None \<Rightarrow> insert_entry now (id_User user) entry_date sc (strip sm) db) of
                Inl x \<Rightarrow> Inl x
              | Inr (entry, db') \<Rightarrow>
                  Inr ((200, Day_cell \<lparr>date_of = entry_date, day_of = snd (snd entry_date),
                                       entry_of = Some entry,
                                       score_class = get_score_color (Some (score entry)),
                                       is_today = (entry_date = today), is_future = False\<rparr>),
                       db'))))"

definition delete_day_entry :: "date \<Rightarrow> date \<Rightarrow> User \<Rightarrow> store \<Rightarrow> exn + (response \<times> store)" where
  "delete_day_entry today entry_date user db =
     (case scalar_one_or_none (select_entry (id_User user) entry_date db) of
        Inl x \<Rightarrow> Inl x
      | Inr found \<Rightarrow>
          Inr ((200, Day_cell \<lparr>date_of = entry_date, day_of = snd (snd entry_date),
                               entry_of = None, score_class = ''score-none'',
                               is_today = (entry_date = today),
                               is_future = (entry_date > today)\<rparr>),
               (case found of Some entry \<Rightarrow> delete_row entry db | None \<Rightarrow> db)))"

section \<open>Account removal (routers/auth.py)\<close>

text \<open>
  \<open>db.delete(current_user)\<close>: the relationship \<open>User.entries\<close> is declared with
  \<open>cascade="all, delete-orphan"\<close>, so the session deletes the user's entries with the
  user.
\<close>

definition delete_account :: "User \<Rightarrow> store \<Rightarrow> unit \<times> store" where
  "delete_account current_user db =
     ((), db\<lparr>users := filter (\<lambda>u. id_User u \<noteq> id_User current_user) (users db),
              day_entries := filter (\<lambda>e. user_id e \<noteq> id_User current_user) (day_entries db)\<rparr>)"

section \<open>Access resolution (auth.py)\<close>

text \<open>
  \<open>int(s)\<close> on a string, base 10: surrounding whitespace is dropped, then an optional
  sign, then decimal digits, where a single underscore may stand between two digits.
  Anything else raises \<open>ValueError\<close>, and so does a literal of more than 4300 digits
  (the interpreter's limit on integer string conversion).
\<close>

definition isdigit :: "char \<Rightarrow> bool" where
  "isdigit c \<longleftrightarrow> 48 \<le> (of_char c :: nat) \<and> (of_char c :: nat) \<le> 57"

definition digit_val :: "char \<Rightarrow> int" where
  "digit_val c = int (of_char c) - 48"

fun int_digits :: "int \<Rightarrow> string \<Rightarrow> int option" where
  "int_digits acc [] = Some acc"
| "int_digits acc [c] = (if isdigit c then Some (10 * acc + digit_val c) else None)"
| "int_digits acc (c # d # ds) =
     (if isdigit c then int_digits (10 * acc + digit_val c) (d # ds)
      else if c = CHR ''_'' \<and> isdigit d then int_digits (10 * acc + digit_val d) ds
      else None)"

definition int_max_str_digits :: nat where
  "int_max_str_digits = 4300"

definition int_str :: "string \<Rightarrow> exn + int" where
  "int_str s =
     (let t = strip s;
          neg = (case t of [] \<Rightarrow> False | c # _ \<Rightarrow> c = CHR ''-'');
          body = (case t of [] \<Rightarrow> [] | c # cs \<Rightarrow> if c = CHR ''-'' \<or> c = CHR ''+'' then cs else t)
      in case body of
           [] \<Rightarrow> Inl ValueError
         | c # cs \<Rightarrow>
             if \<not> isdigit c \<or> length (filter isdigit body) > int_max_str_digits then Inl ValueError
             else (case int_digits (digit_val c) cs of
                     None \<Rightarrow> Inl ValueError
                   | Some n \<Rightarrow> Inr (if neg then - n else n)))"

text \<open>
  The token library is a parameter of the model. \<open>jwt_decode token\<close> stands for
  \<open>jwt.decode(token, settings.secret_key, algorithms=[settings.algorithm])\<close>: it is
  \<open>None\<close> when the call raises \<open>JWTError\<close> (bad signature, malformed token, expired
  token, a \<open>sub\<close> claim that is not a string), and the claims otherwise. Of the claims
  the handlers read \<open>sub\<close> only.
\<close>

datatype claims = Claims (sub: "string option")

type_synonym jwt_decode = "string \<Rightarrow> claims option"

definition credentials_exception :: exn where
  "credentials_exception = HTTPException HTTP_401_UNAUTHORIZED Could_not_validate_credentials"

text \<open>
  \<open>select(User).where(User.id == user_id)\<close>. The identifier is compared as an integer of
  any size; the width of the database column is not part of the model.
\<close>

definition get_user_by_id :: "store \<Rightarrow> int \<Rightarrow> exn + User option" where
  "get_user_by_id db uid = scalar_one_or_none (filter (\<lambda>u. id_User u = uid) (users db))"

text \<open>
  Only \<open>JWTError\<close> is caught around the decoding; the \<open>ValueError\<close> of \<open>int\<close> is not
  one and leaves the function.
\<close>

definition get_current_user :: "jwt_decode \<Rightarrow> string option \<Rightarrow> store \<Rightarrow> exn + User" where
  "get_current_user jwt_decode token db =
     (case token of
        None \<Rightarrow> Inl credentials_exception
      | Some t \<Rightarrow>
          if t = [] then Inl credentials_exception
          else
            (case jwt_decode t of
               None \<Rightarrow> Inl credentials_exception
             | Some payload \<Rightarrow>
                 (case sub payload of
                    None \<Rightarrow> Inl credentials_exception
                  | Some uid \<Rightarrow>
                      (case int_str uid of
                         Inl x \<Rightarrow> Inl x
                       | Inr token_data \<Rightarrow>
                           (case get_user_by_id db token_data of
                              Inl x \<Rightarrow> Inl x
                            | Inr None \<Rightarrow> Inl credentials_exception
                            | Inr (Some user) \<Rightarrow> Inr user)))))"

definition get_current_user_optional ::
    "jwt_decode \<Rightarrow> string option \<Rightarrow> store \<Rightarrow> exn + User option" where
  "get_current_user_optional jwt_decode token db =
     (case token of
        None \<Rightarrow> Inr None
      | Some t \<Rightarrow>
          if t = [] then Inr None
          else
            (case jwt_decode t of
               None \<Rightarrow> Inr None
             | Some payload \<Rightarrow>
                 (case sub payload of
                    None \<Rightarrow> Inr None
                  | Some uid \<Rightarrow>
                      (case int_str uid of
                         Inl x \<Rightarrow> Inl x
                       | Inr n \<Rightarrow> get_user_by_id db n))))"

section \<open>Calendar grid (routers/pages.py, with \<open>datetime.date\<close> and \<open>calendar.monthrange\<close>)\<close>















section \<open>The invariant of a persisted entry\<close>

text \<open>
  As the specification words it: the score lies in 0 to 10, and the summary is not empty,
  has at most 200 characters and neither starts nor ends with whitespace.
\<close>

definition valid_entry :: "DayEntry \<Rightarrow> bool" where
  "valid_entry e \<longleftrightarrow>
     0 \<le> score e \<and> score e \<le> 10 \<and> summary e \<noteq> [] \<and> length (summary e) \<le> 200 \<and>
     \<not> isspace (hd (summary e)) \<and> \<not> isspace (last (summary e))"

section \<open>Sample data\<close>

text \<open>Two users and one entry of the second, used to run the properties below.\<close>

definition user1 :: User where
  "user1 = \<lparr>id_User = 1, email = ''a@example.org'', hashed_password = ''$2b$12$h1'', created_at_User = 100\<rparr>"

definition user2 :: User where
  "user2 = \<lparr>id_User = 2, email = ''b@example.org'', hashed_password = ''$2b$12$h2'', created_at_User = 200\<rparr>"

definition entry1 :: DayEntry where
  "entry1 = \<lparr>id_DayEntry = 1, user_id = 2, date = (2024, 1, 15), score = 7, summary = ''good day'',
     created_at = 300, updated_at = 300\<rparr>"

definition store1 :: store where
  "store1 = \<lparr>users = [user1, user2], day_entries = [entry1]\<rparr>"

text \<open>
  A decoder to run the access properties on: it accepts four tokens and rejects every
  other string.
\<close>

definition sample_decode :: jwt_decode where
  "sample_decode t =
     (if t = ''token-sub-2'' then Some (Claims (Some ''2''))
      else if t = ''token-sub-7'' then Some (Claims (Some ''7''))
      else if t = ''token-sub-abc'' then Some (Claims (Some ''abc''))
      else if t = ''token-without-sub'' then Some (Claims None)
      else None)"

text \<open>
  The store after the first user saves the same day twice through the calendar page, at
  clock readings 1000 and 2000.
\<close>

definition store2 :: store where
  "store2 = store_after store1
     (save_day_entry (2024, 1, 16) 1000 (2024, 1, 16) user1 store1 5 ''ok'')"

definition store3 :: store where
  "store3 = store_after store2
     (save_day_entry (2024, 1, 16) 2000 (2024, 1, 16) user1 store2 5 ''ok'')"







section \<open>Properties\<close>

subsection \<open>Queries on a store that satisfies its constraints\<close>

lemma filter_key_unique:
  "distinct (map f xs) \<Longrightarrow> e \<in> set xs \<Longrightarrow> filter (\<lambda>x. f x = f e) xs = [e]"
proof (induction xs)
  case Nil
  then show ?case by simp
next
  case (Cons a xs)
  show ?case
  proof (cases "a = e")
    case True
    from Cons.prems(1) have "f e \<notin> f ` set xs" using True by simp
    then have "filter (\<lambda>x. f x = f e) xs = []"
      by (simp add: filter_empty_conv) (metis imageI)
    with True show ?thesis by simp
  next
    case False
    with Cons.prems have "e \<in> set xs" by simp
    moreover from Cons.prems(1) have "distinct (map f xs)" by simp
    ultimately have ih: "filter (\<lambda>x. f x = f e) xs = [e]" by (rule Cons.IH[rotated])
    from Cons.prems(1) \<open>e \<in> set xs\<close> have "f a \<noteq> f e" by auto
    with ih show ?thesis by simp
  qed
qed

lemma select_entry_unique:
  assumes "uq_user_date db" and "e \<in> set (day_entries db)"
  shows "select_entry (user_id e) (date e) db = [e]"
proof -
  have "filter (\<lambda>x. (user_id x, date x) = (user_id e, date e)) (day_entries db) = [e]"
    using assms unfolding uq_user_date_def by (rule filter_key_unique)
  then show ?thesis by (simp add: select_entry_def)
qed

lemma select_entry_delete_row:
  assumes "select_entry uid d db = [e]"
  shows "select_entry uid d (delete_row e db) = []"
proof -
  have "\<forall>x \<in> set (day_entries db). user_id x = uid \<and> date x = d \<longrightarrow> x = e"
  proof (intro ballI impI)
    fix x assume "x \<in> set (day_entries db)" "user_id x = uid \<and> date x = d"
    then have "x \<in> set (select_entry uid d db)" by (simp add: select_entry_def)
    with assms show "x = e" by simp
  qed
  then show ?thesis
    by (auto simp: select_entry_def delete_row_def filter_empty_conv)
qed


subsection \<open>Deleting an entry\<close>

text \<open>
  Claim C7. When the user has no entry for the date, the API handler \<open>delete_entry\<close>
  raises 404 while the page handler \<open>delete_day_entry\<close> answers 200 and leaves the store
  as it is; when the user has an entry for the date, both handlers leave the store
  without it.
\<close>

theorem delete_asymmetry:
  "(select_entry (id_User u) d db = [] \<longrightarrow>
      delete_entry d u db = Inl (HTTPException HTTP_404_NOT_FOUND (No_entry_found d)) \<and>
      (\<exists>cell. delete_day_entry today d u db = Inr ((200, Day_cell cell), db))) \<and>
   (uq_user_date db \<and> e \<in> set (day_entries db) \<and> user_id e = id_User u \<and> date e = d \<longrightarrow>
      delete_entry d u db = Inr ((), delete_row e db) \<and>
      (\<exists>cell. delete_day_entry today d u db = Inr ((200, Day_cell cell), delete_row e db)) \<and>
      select_entry (id_User u) d (delete_row e db) = [])"
proof (intro conjI impI)
  assume a: "select_entry (id_User u) d db = []"
  show "delete_entry d u db = Inl (HTTPException HTTP_404_NOT_FOUND (No_entry_found d))"
    by (simp add: delete_entry_def scalar_one_or_none_def a)
  show "\<exists>cell. delete_day_entry today d u db = Inr ((200, Day_cell cell), db)"
    by (simp add: delete_day_entry_def scalar_one_or_none_def a)
next
  assume "uq_user_date db \<and> e \<in> set (day_entries db) \<and> user_id e = id_User u \<and> date e = d"
  then have s: "select_entry (id_User u) d db = [e]"
    using select_entry_unique[of db e] by auto
  show "delete_entry d u db = Inr ((), delete_row e db)"
    by (simp add: delete_entry_def scalar_one_or_none_def s)
  show "\<exists>cell. delete_day_entry today d u db = Inr ((200, Day_cell cell), delete_row e db)"
    by (simp add: delete_day_entry_def scalar_one_or_none_def s)
  show "select_entry (id_User u) d (delete_row e db) = []"
    using s by (rule select_entry_delete_row)
qed

theorem delete_asymmetry_witness:
  "select_entry (id_User user1) (2024, 1, 15) store1 = [] \<and>
   delete_entry (2024, 1, 15) user1 store1
     = Inl (HTTPException HTTP_404_NOT_FOUND (No_entry_found (2024, 1, 15))) \<and>
   store_after store1 (delete_day_entry (2024, 1, 16) (2024, 1, 15) user1 store1) = store1 \<and>
   uq_user_date store1 \<and> entry1 \<in> set (day_entries store1) \<and>
   delete_entry (2024, 1, 15) user2 store1 = Inr ((), store1\<lparr>day_entries := []\<rparr>) \<and>
   store_after store1 (delete_day_entry (2024, 1, 16) (2024, 1, 15) user2 store1)
     = store1\<lparr>day_entries := []\<rparr>"
  using delete_asymmetry [of user1 "(2024, 1, 15)" store1 "(2024, 1, 16)" entry1]
        delete_asymmetry [of user2 "(2024, 1, 15)" store1 "(2024, 1, 16)" entry1]
  by (auto simp: select_entry_def store1_def entry1_def user1_def user2_def uq_user_date_def
      delete_row_def store_after_def)

subsection \<open>Removing an account\<close>

text \<open>
  Claim C8. After \<open>delete_account\<close> for a user, the store holds no entry owned by that
  user, \<open>get_entry\<close> for that user raises 404 for every date, and the user is no longer
  found by identifier.
\<close>

theorem delete_account_cascade:
  "filter (\<lambda>e. user_id e = id_User u) (day_entries (snd (delete_account u db))) = [] \<and>
   get_entry d u (snd (delete_account u db))
     = Inl (HTTPException HTTP_404_NOT_FOUND (No_entry_found d)) \<and>
   get_user_by_id (snd (delete_account u db)) (id_User u) = Inr None"
proof (intro conjI)
  show none: "filter (\<lambda>e. user_id e = id_User u) (day_entries (snd (delete_account u db))) = []"
    by (simp add: delete_account_def filter_empty_conv)
  have "select_entry (id_User u) d (snd (delete_account u db)) = []"
    by (simp add: select_entry_def delete_account_def filter_empty_conv)
  then show "get_entry d u (snd (delete_account u db))
     = Inl (HTTPException HTTP_404_NOT_FOUND (No_entry_found d))"
    by (simp add: get_entry_def scalar_one_or_none_def)
  show "get_user_by_id (snd (delete_account u db)) (id_User u) = Inr None"
    by (simp add: get_user_by_id_def delete_account_def scalar_one_or_none_def filter_empty_conv)
qed

theorem delete_account_cascade_witness:
  "get_entry (2024, 1, 15) user2 store1 = Inr entry1 \<and>
   get_entry (2024, 1, 15) user2 (snd (delete_account user2 store1))
     = Inl (HTTPException HTTP_404_NOT_FOUND (No_entry_found (2024, 1, 15))) \<and>
   day_entries (snd (delete_account user2 store1)) = []"
  using delete_account_cascade [of user2 store1 "(2024, 1, 15)"]
  by (simp add: get_entry_def select_entry_def scalar_one_or_none_def store1_def entry1_def
      user2_def delete_account_def)

subsection \<open>Creating an entry for a date that has one\<close>

text \<open>
  Claim C3. When the user already has an entry for the date, \<open>create_entry\<close> raises
  \<open>HTTPException\<close> with status 400 and the detail "Entry already exists", which is not
  the 404 of a missing entry; the store after the request is the store before it, and
  \<open>get_entry\<close> still returns the original entry, with its score, summary and
  timestamps. The endpoint \<open>post_entries\<close> raises the same exception for every body that
  passes validation, and leaves the store as it is for every body.
\<close>

theorem create_entry_conflict:
  assumes "uq_user_date db" and "e \<in> set (day_entries db)"
    and "user_id e = id_User u" and "date e = d"
  shows "create_entry now (DayEntryCreate d sc sm) u db
           = Inl (HTTPException HTTP_400_BAD_REQUEST (Entry_already_exists d)) \<and>
         HTTPException HTTP_400_BAD_REQUEST (Entry_already_exists d)
           \<noteq> HTTPException HTTP_404_NOT_FOUND (No_entry_found d) \<and>
         store_after db (create_entry now (DayEntryCreate d sc sm) u db) = db \<and>
         get_entry d u (store_after db (create_entry now (DayEntryCreate d sc sm) u db)) = Inr e \<and>
         (DayEntryCreate_validate d sc sm \<noteq> Inl RequestValidationError \<longrightarrow>
            post_entries now d sc sm u db
              = Inl (HTTPException HTTP_400_BAD_REQUEST (Entry_already_exists d))) \<and>
         store_after db (post_entries now d sc sm u db) = db"
proof -
  have s: "select_entry (id_User u) d db = [e]"
    using select_entry_unique[OF assms(1,2)] assms(3,4) by simp
  have c: "create_entry now (DayEntryCreate d sc' sm') u db
           = Inl (HTTPException HTTP_400_BAD_REQUEST (Entry_already_exists d))" for sc' sm'
    by (simp add: scalar_one_or_none_def s)
  have p: "post_entries now d sc sm u db = Inl RequestValidationError \<or>
           post_entries now d sc sm u db
             = Inl (HTTPException HTTP_400_BAD_REQUEST (Entry_already_exists d))"
    unfolding post_entries_def DayEntryCreate_validate_def
    by (simp add: c del: create_entry.simps)
  have v: "DayEntryCreate_validate d sc sm \<noteq> Inl RequestValidationError \<longrightarrow>
            post_entries now d sc sm u db
              = Inl (HTTPException HTTP_400_BAD_REQUEST (Entry_already_exists d))"
    unfolding post_entries_def DayEntryCreate_validate_def
    by (simp add: c del: create_entry.simps)
  have q: "store_after db (post_entries now d sc sm u db) = db"
    using p by (auto simp: store_after_def)
  have g: "get_entry d u db = Inr e"
    by (simp add: get_entry_def scalar_one_or_none_def s)
  show ?thesis
    unfolding c using v q by (simp add: g store_after_def)
qed

theorem create_entry_conflict_witness:
  "uq_user_date store1 \<and> entry1 \<in> set (day_entries store1) \<and>
   user_id entry1 = id_User user2 \<and> date entry1 = (2024, 1, 15) \<and>
   create_entry 900 (DayEntryCreate (2024, 1, 15) 3 ''again'') user2 store1
     = Inl (HTTPException HTTP_400_BAD_REQUEST (Entry_already_exists (2024, 1, 15))) \<and>
   get_entry (2024, 1, 15) user2
     (store_after store1 (create_entry 900 (DayEntryCreate (2024, 1, 15) 3 ''again'') user2 store1))
     = Inr entry1 \<and>
   DayEntryCreate_validate (2024, 1, 15) 3 ''again'' \<noteq> Inl RequestValidationError \<and>
   post_entries 900 (2024, 1, 15) 3 ''again'' user2 store1
     = Inl (HTTPException HTTP_400_BAD_REQUEST (Entry_already_exists (2024, 1, 15)))"
proof -
  have h: "uq_user_date store1" "entry1 \<in> set (day_entries store1)"
    "user_id entry1 = id_User user2" "date entry1 = (2024, 1, 15)"
    by (simp_all add: uq_user_date_def store1_def entry1_def user2_def)
  have v: "DayEntryCreate_validate (2024, 1, 15) 3 ''again'' \<noteq> Inl RequestValidationError"
    by (simp add: DayEntryCreate_validate_def)
  show ?thesis
    using h v create_entry_conflict [OF h, of 900 3 "''again''"]
    by blast
qed

subsection \<open>Entries of another user\<close>



subsection \<open>Access resolution\<close>




lemma int_str_abc: "int_str ''abc'' = Inl ValueError"
  by (simp add: int_str_def strip_def lstrip_def rstrip_def isspace_def isdigit_def)



text \<open>
  Claim C6, where the code departs from it. When the token decodes to a \<open>sub\<close> claim
  that \<open>int\<close> cannot read, the \<open>ValueError\<close> of \<open>int\<close> is not caught by
  \<open>except JWTError\<close>: both \<open>get_current_user\<close> and \<open>get_current_user_optional\<close>
  raise it, instead of the 401 exception and of returning no user.
\<close>

theorem non_numeric_sub_not_caught:
  assumes "t \<noteq> []" and "jwt_decode t = Some (Claims (Some s))" and "int_str s = Inl ValueError"
  shows "get_current_user jwt_decode (Some t) db = Inl ValueError \<and>
         get_current_user_optional jwt_decode (Some t) db = Inl ValueError \<and>
         Inl ValueError \<noteq> (Inl credentials_exception :: exn + User)"
  using assms
  by (simp add: get_current_user_def get_current_user_optional_def credentials_exception_def)

theorem non_numeric_sub_not_caught_witness:
  "''token-sub-abc'' \<noteq> [] \<and> sample_decode ''token-sub-abc'' = Some (Claims (Some ''abc'')) \<and>
   int_str ''abc'' = Inl ValueError \<and>
   get_current_user sample_decode (Some ''token-sub-abc'') store1 = Inl ValueError \<and>
   get_current_user_optional sample_decode (Some ''token-sub-abc'') store1 = Inl ValueError"
proof -
  have h: "''token-sub-abc'' \<noteq> []" "sample_decode ''token-sub-abc'' = Some (Claims (Some ''abc''))"
    "int_str ''abc'' = Inl ValueError"
    by (simp_all add: sample_decode_def int_str_abc)
  show ?thesis
    using h
      non_numeric_sub_not_caught [where jwt_decode = sample_decode and t = "''token-sub-abc''"
        and db = store1, OF h]
    by blast
qed

subsection \<open>The table constraints are kept by every handler\<close>

lemma fold_max_ge: "(a::int) \<le> fold max ids a \<and> (\<forall>x \<in> set ids. x \<le> fold max ids a)"
proof (induction ids arbitrary: a)
  case Nil
  then show ?case by simp
next
  case (Cons i ids)
  from Cons.IH[of "max i a"] show ?case by auto
qed

lemma next_id_fresh: "next_id ids \<notin> set ids"
  using fold_max_ge[of 0 ids] by (auto simp: next_id_def)

lemma insert_entry_constraints:
  assumes "constraints db" and "insert_entry now uid d sc sm db = Inr (e, db')"
  shows "constraints db'"
proof -
  from assms(2) have none: "select_entry uid d db = []"
    by (auto simp: insert_entry_def split: if_splits)
  with assms(2) have db': "db' = db\<lparr>day_entries := day_entries db @ [e]\<rparr>"
    and e: "id_DayEntry e = next_id (map id_DayEntry (day_entries db))" "user_id e = uid" "date e = d"
    by (auto simp: insert_entry_def Let_def)
  have "id_DayEntry e \<notin> set (map id_DayEntry (day_entries db))"
    unfolding e(1) by (rule next_id_fresh)
  moreover have "(uid, d) \<notin> set (map (\<lambda>e. (user_id e, date e)) (day_entries db))"
    using none by (auto simp: select_entry_def filter_empty_conv)
  ultimately show ?thesis
    using assms(1) e by (simp add: constraints_def pk_day_entries_def uq_user_date_def db')
qed

lemma flush_update_constraints:
  assumes "constraints db" and "loaded \<in> set (day_entries db)"
    and "id_DayEntry entry = id_DayEntry loaded" and "user_id entry = user_id loaded"
    and "date entry = date loaded"
  shows "constraints (snd (flush_update now loaded entry db))"
proof -
  let ?row = "entry\<lparr>updated_at := now\<rparr>"
  let ?g = "\<lambda>r. if id_DayEntry r = id_DayEntry loaded then ?row else r"
  have inj: "inj_on id_DayEntry (set (day_entries db))"
    using assms(1) by (simp add: constraints_def pk_day_entries_def distinct_map)
  have keep: "id_DayEntry (?g r) = id_DayEntry r \<and> user_id (?g r) = user_id r \<and> date (?g r) = date r"
    if "r \<in> set (day_entries db)" for r
  proof (cases "id_DayEntry r = id_DayEntry loaded")
    case True
    with inj that assms(2) have "r = loaded" by (auto dest: inj_onD)
    then show ?thesis using assms(3-5) by simp
  next
    case False
    then show ?thesis by simp
  qed
  have "map id_DayEntry (map ?g (day_entries db)) = map id_DayEntry (day_entries db)"
    "map (\<lambda>e. (user_id e, date e)) (map ?g (day_entries db))
       = map (\<lambda>e. (user_id e, date e)) (day_entries db)"
    using keep by (simp_all add: o_def cong: map_cong)
  then show ?thesis
    using assms(1)
    by (simp add: flush_update_def Let_def constraints_def pk_day_entries_def uq_user_date_def
        del: map_map)
qed

lemma filter_constraints:
  "constraints db \<Longrightarrow> constraints (db\<lparr>day_entries := filter P (day_entries db)\<rparr>)"
  by (simp add: constraints_def pk_day_entries_def uq_user_date_def distinct_map_filter)

lemma found_member:
  "scalar_one_or_none (select_entry uid d db) = Inr (Some e)
     \<Longrightarrow> e \<in> set (day_entries db) \<and> user_id e = uid \<and> date e = d"
proof -
  assume "scalar_one_or_none (select_entry uid d db) = Inr (Some e)"
  then have "select_entry uid d db = [e]"
    by (auto simp: scalar_one_or_none_def split: list.splits)
  then have "e \<in> set (select_entry uid d db)" by simp
  then show ?thesis by (simp add: select_entry_def)
qed

lemma constraints_preserved:
  assumes "constraints db"
  shows "constraints (store_after db (create_entry now entry_data u db))"
    and "constraints (store_after db (update_entry now d upd u db))"
    and "constraints (store_after db (delete_entry d u db))"
    and "constraints (store_after db (save_day_entry today now d u db sc sm))"
    and "constraints (store_after db (delete_day_entry today d u db))"
    and "constraints (snd (delete_account u db))"
proof -
  show "constraints (store_after db (create_entry now entry_data u db))"
  proof (cases "create_entry now entry_data u db")
    case (Inl x)
    then show ?thesis using assms by (simp add: store_after_def)
  next
    case (Inr r)
    obtain e db' where r: "r = (e, db')" by (cases r)
    obtain dd sc' sm' where ed: "entry_data = DayEntryCreate dd sc' sm'" by (cases entry_data)
    from Inr r ed have "insert_entry now (id_User u) dd sc' sm' db = Inr (e, db')"
      by (auto split: sum.splits option.splits)
    from insert_entry_constraints[OF assms this] show ?thesis
      using Inr r by (simp add: store_after_def)
  qed
  show "constraints (store_after db (update_entry now d upd u db))"
  proof (cases "scalar_one_or_none (select_entry (id_User u) d db)")
    case (Inl x)
    then show ?thesis using assms by (cases upd) (simp add: store_after_def)
  next
    case (Inr found)
    obtain sc' sm' where upd: "upd = DayEntryUpdate sc' sm'" by (cases upd)
    show ?thesis
    proof (cases found)
      case None
      then show ?thesis using assms Inr upd by (simp add: store_after_def)
    next
      case (Some loaded)
      with Inr have m: "loaded \<in> set (day_entries db)" using found_member by blast
      let ?entry = "case sm' of None \<Rightarrow> (case sc' of None \<Rightarrow> loaded | Some v \<Rightarrow> loaded\<lparr>score := v\<rparr>)
         | Some w \<Rightarrow> (case sc' of None \<Rightarrow> loaded | Some v \<Rightarrow> loaded\<lparr>score := v\<rparr>)\<lparr>summary := w\<rparr>"
      have "constraints (snd (flush_update now loaded ?entry db))"
        by (rule flush_update_constraints[OF assms m]) (simp_all split: option.splits)
      then show ?thesis
        using Inr Some upd by (auto simp: store_after_def Let_def split: prod.split option.splits)
    qed
  qed
  show "constraints (store_after db (delete_entry d u db))"
    using assms filter_constraints[OF assms]
    by (auto simp: delete_entry_def store_after_def delete_row_def split: sum.splits option.splits)
  show "constraints (store_after db (delete_day_entry today d u db))"
    using assms filter_constraints[OF assms]
    by (auto simp: delete_day_entry_def store_after_def delete_row_def
        split: sum.splits option.splits)
  show "constraints (snd (delete_account u db))"
    using assms
    by (simp add: delete_account_def constraints_def pk_day_entries_def uq_user_date_def
        distinct_map_filter)
  show "constraints (store_after db (save_day_entry today now d u db sc sm))"
  proof (cases "(sc < 0 \<or> sc > 10) \<or> (length (strip sm) = 0 \<or> length sm > 200)")
    case True
    then show ?thesis using assms by (auto simp: save_day_entry_def store_after_def)
  next
    case False
    then have v: "\<not> (sc < 0 \<or> sc > 10)" "\<not> (length (strip sm) = 0 \<or> length sm > 200)" by auto
    show ?thesis
    proof (cases "scalar_one_or_none (select_entry (id_User u) d db)")
      case (Inl x)
      then show ?thesis using assms v by (simp add: save_day_entry_def store_after_def)
    next
      case (Inr found)
      show ?thesis
      proof (cases found)
        case None
        show ?thesis
        proof (cases "insert_entry now (id_User u) d sc (strip sm) db")
          case (Inl x)
          then show ?thesis
            using assms v Inr None by (simp add: save_day_entry_def store_after_def)
        next
          case (Inr r)
          obtain e db' where r: "r = (e, db')" by (cases r)
          from insert_entry_constraints[OF assms Inr[unfolded r]] show ?thesis
            using v \<open>scalar_one_or_none (select_entry (id_User u) d db) = Inr found\<close> None Inr r
            by (simp add: save_day_entry_def store_after_def)
        qed
      next
        case (Some loaded)
        with Inr have m: "loaded \<in> set (day_entries db)" using found_member by blast
        have "constraints (snd (flush_update now loaded
                (loaded\<lparr>score := sc, summary := strip sm\<rparr>) db))"
          by (rule flush_update_constraints[OF assms m]) simp_all
        then show ?thesis
          using v Inr Some by (auto simp: save_day_entry_def store_after_def split: prod.split)
      qed
    qed
  qed
qed

subsection \<open>Saving the same day twice\<close>

lemma strip_ok: "strip ''ok'' = ''ok''"
  by (simp add: strip_def lstrip_def rstrip_def isspace_def)

lemma strip_space: "strip '' '' = []"
  by (simp add: strip_def lstrip_def rstrip_def isspace_def)

lemma store2_eq:
  "store2 = \<lparr>users = [user1, user2],
             day_entries = [entry1,
               \<lparr>id_DayEntry = 2, user_id = 1, date = (2024, 1, 16), score = 5, summary = ''ok'',
                created_at = 1000, updated_at = 1000\<rparr>]\<rparr>"
  by (simp add: store2_def save_day_entry_def strip_ok select_entry_def scalar_one_or_none_def
      insert_entry_def next_id_def store_after_def store1_def entry1_def user1_def Let_def)

lemma store3_eq: "store3 = store2"
  unfolding store3_def
  by (simp add: store2_eq save_day_entry_def strip_ok select_entry_def scalar_one_or_none_def
      flush_update_def store_after_def entry1_def user1_def Let_def)

lemma select_entry_cases:
  assumes "uq_user_date db"
  shows "select_entry uid d db = [] \<or> (\<exists>e. select_entry uid d db = [e] \<and> e \<in> set (day_entries db))"
proof (cases "select_entry uid d db")
  case Nil
  then show ?thesis by simp
next
  case (Cons e es)
  then have "e \<in> set (select_entry uid d db)" by simp
  then have m: "e \<in> set (day_entries db)" and k: "user_id e = uid" "date e = d"
    by (simp_all add: select_entry_def)
  from select_entry_unique[OF assms m] k have "select_entry uid d db = [e]" by simp
  with m show ?thesis by blast
qed

lemma flush_update_select:
  assumes pk: "pk_day_entries db" and s: "select_entry uid d db = [loaded]"
    and same: "user_id entry = user_id loaded" "date entry = date loaded"
  shows "select_entry uid d (snd (flush_update now loaded entry db))
           = [fst (flush_update now loaded entry db)]"
proof (cases "score entry = score loaded \<and> summary entry = summary loaded")
  case True
  then show ?thesis by (simp add: flush_update_def s)
next
  case False
  let ?row = "entry\<lparr>updated_at := now\<rparr>"
  let ?g = "\<lambda>r. if id_DayEntry r = id_DayEntry loaded then ?row else r"
  let ?P = "\<lambda>e. user_id e = uid \<and> date e = d"
  have "loaded \<in> set (select_entry uid d db)" using s by simp
  then have m: "loaded \<in> set (day_entries db)" and k: "?P loaded"
    by (simp_all add: select_entry_def)
  have inj: "inj_on id_DayEntry (set (day_entries db))"
    using pk by (simp add: pk_day_entries_def distinct_map)
  have same_pred: "\<And>r. r \<in> set (day_entries db) \<Longrightarrow> ?P (?g r) = ?P r"
  proof -
    fix r assume r: "r \<in> set (day_entries db)"
    show "?P (?g r) = ?P r"
    proof (cases "id_DayEntry r = id_DayEntry loaded")
      case True
      with inj r m have "r = loaded" by (auto dest: inj_onD)
      with k same show ?thesis by simp
    next
      case False
      then show ?thesis by simp
    qed
  qed
  have "filter ?P (map ?g (day_entries db)) = map ?g (filter (?P \<circ> ?g) (day_entries db))"
    by (simp only: filter_map)
  also have "filter (?P \<circ> ?g) (day_entries db) = filter ?P (day_entries db)"
    by (rule filter_cong[OF refl]) (simp only: o_def same_pred)
  also have "filter ?P (day_entries db) = [loaded]"
    using s by (simp add: select_entry_def)
  finally have "filter ?P (map ?g (day_entries db)) = [?row]" by simp
  moreover have "flush_update now loaded entry db
      = (?row, db\<lparr>day_entries := map ?g (day_entries db)\<rparr>)"
    using False by (auto simp: flush_update_def Let_def)
  ultimately show ?thesis
    by (simp add: select_entry_def)
qed

lemma flush_update_fields:
  "score (fst (flush_update now loaded entry db)) = score entry \<and>
   summary (fst (flush_update now loaded entry db)) = summary entry"
  by (simp add: flush_update_def Let_def)

lemma flush_update_idle:
  "score entry = score loaded \<Longrightarrow> summary entry = summary loaded
     \<Longrightarrow> flush_update now loaded entry db = (loaded, db)"
  by (simp add: flush_update_def)

lemma insert_entry_select:
  assumes "select_entry uid d db = []"
  shows "\<exists>e. insert_entry now uid d sc sm db = Inr (e, db\<lparr>day_entries := day_entries db @ [e]\<rparr>) \<and>
             select_entry uid d (db\<lparr>day_entries := day_entries db @ [e]\<rparr>) = [e] \<and>
             score e = sc \<and> summary e = sm \<and> updated_at e = now \<and> created_at e = now"
  using assms by (simp add: insert_entry_def Let_def select_entry_def)

text \<open>
  Claim C2, as stated, fails: the second of two identical saves changes no column, so no
  UPDATE is emitted and \<open>updated_at\<close> keeps the value of the first save (1000), although
  the clock has moved on to 2000.
\<close>

theorem save_day_entry_twice_counterexample:
  "map updated_at (select_entry 1 (2024, 1, 16) store2) = [1000] \<and>
   map updated_at (select_entry 1 (2024, 1, 16) store3) = [1000] \<and>
   \<not> hd (map updated_at (select_entry 1 (2024, 1, 16) store2))
       < hd (map updated_at (select_entry 1 (2024, 1, 16) store3))"
  by (simp add: store3_eq) (simp add: store2_eq select_entry_def entry1_def)

text \<open>
  Claim C2, amended. For a score from 0 to 10 and a summary of at most 200 characters that
  is not blank, \<open>save_day_entry\<close> answers 200 and leaves exactly one entry for the user
  and date, with that score and the stripped summary; the same call again, at any later
  clock reading, answers 200 and leaves the store exactly as the first call left it, so
  score, summary and \<open>updated_at\<close> are unchanged and no second entry appears.
\<close>

theorem save_day_entry_idempotent:
  assumes "pk_day_entries db" and "uq_user_date db"
    and "0 \<le> sc" and "sc \<le> 10" and "strip sm \<noteq> []" and "length sm \<le> 200"
  shows "\<exists>cell e db1.
           save_day_entry today now1 d u db sc sm = Inr ((200, Day_cell cell), db1) \<and>
           select_entry (id_User u) d db1 = [e] \<and> score e = sc \<and> summary e = strip sm \<and>
           (\<exists>cell2. save_day_entry today2 now2 d u db1 sc sm = Inr ((200, Day_cell cell2), db1))"
proof -
  have v: "\<not> (sc < 0 \<or> sc > 10)" "\<not> (length (strip sm) = 0 \<or> length sm > 200)"
    using assms(3-6) by auto
  have again: "\<exists>cell2. save_day_entry today2 now2 d u db1 sc sm = Inr ((200, Day_cell cell2), db1)"
    if "select_entry (id_User u) d db1 = [e]" "score e = sc" "summary e = strip sm" for db1 e
    using that v by (simp add: save_day_entry_def scalar_one_or_none_def flush_update_idle)
  from select_entry_cases[OF assms(2), of "id_User u" d]
  show ?thesis
  proof
    assume none: "select_entry (id_User u) d db = []"
    from insert_entry_select[OF none, of now1 sc "strip sm"]
    obtain e where e: "insert_entry now1 (id_User u) d sc (strip sm) db
          = Inr (e, db\<lparr>day_entries := day_entries db @ [e]\<rparr>)"
        "select_entry (id_User u) d (db\<lparr>day_entries := day_entries db @ [e]\<rparr>) = [e]"
        "score e = sc" "summary e = strip sm"
      by blast
    have "\<exists>cell. save_day_entry today now1 d u db sc sm
        = Inr ((200, Day_cell cell), db\<lparr>day_entries := day_entries db @ [e]\<rparr>)"
      using v by (simp add: save_day_entry_def scalar_one_or_none_def none e(1))
    with e(2-4) again[OF e(2-4)] show ?thesis by blast
  next
    assume "\<exists>e. select_entry (id_User u) d db = [e] \<and> e \<in> set (day_entries db)"
    then obtain loaded where l: "select_entry (id_User u) d db = [loaded]" by blast
    let ?entry = "loaded\<lparr>score := sc, summary := strip sm\<rparr>"
    let ?r = "flush_update now1 loaded ?entry db"
    have sel: "select_entry (id_User u) d (snd ?r) = [fst ?r]"
      by (rule flush_update_select[OF assms(1) l]) simp_all
    have f: "score (fst ?r) = sc" "summary (fst ?r) = strip sm"
      using flush_update_fields[of now1 loaded ?entry db] by simp_all
    have "\<exists>cell. save_day_entry today now1 d u db sc sm = Inr ((200, Day_cell cell), snd ?r)"
      using v by (simp add: save_day_entry_def scalar_one_or_none_def l split: prod.split)
    with sel f again[OF sel f] show ?thesis by blast
  qed
qed

theorem save_day_entry_idempotent_witness:
  "pk_day_entries store1 \<and> uq_user_date store1 \<and> (0::int) \<le> 5 \<and> (5::int) \<le> 10 \<and>
   strip ''ok'' \<noteq> [] \<and> length ''ok'' \<le> 200 \<and>
   map summary (select_entry 1 (2024, 1, 16) store2) = [''ok''] \<and>
   map score (select_entry 1 (2024, 1, 16) store2) = [5] \<and>
   store3 = store2"
proof -
  have h: "pk_day_entries store1" "uq_user_date store1" "(0::int) \<le> 5" "(5::int) \<le> 10"
    "strip ''ok'' \<noteq> []" "length ''ok'' \<le> 200"
    by (simp_all add: pk_day_entries_def uq_user_date_def store1_def strip_ok)
  from save_day_entry_idempotent [OF h, of "(2024, 1, 16)" 1000 "(2024, 1, 16)" user1
      "(2024, 1, 16)" 2000]
  obtain cell e db1 cell2 where
    r: "save_day_entry (2024, 1, 16) 1000 (2024, 1, 16) user1 store1 5 ''ok''
          = Inr ((200, Day_cell cell), db1)"
       "select_entry (id_User user1) (2024, 1, 16) db1 = [e]" "score e = 5"
       "summary e = strip ''ok''"
       "save_day_entry (2024, 1, 16) 2000 (2024, 1, 16) user1 db1 5 ''ok''
          = Inr ((200, Day_cell cell2), db1)"
    by blast
  have s2: "store2 = db1" by (simp add: store2_def r(1) store_after_def)
  have s3: "store3 = store2" by (simp add: store3_def s2 r(5) store_after_def)
  have "id_User user1 = 1" by (simp add: user1_def)
  with r(2-4) s2 have "map summary (select_entry 1 (2024, 1, 16) store2) = [''ok'']"
    "map score (select_entry 1 (2024, 1, 16) store2) = [5]"
    by (simp_all add: strip_ok)
  with h s3 show ?thesis by simp
qed

subsection \<open>Partial update\<close>

text \<open>
  Claim C4, as stated, fails: an update that supplies neither field succeeds and leaves
  \<open>updated_at\<close> at 300 although the clock reads 2000.
\<close>

theorem update_entry_timestamp_counterexample:
  "update_entry 2000 (2024, 1, 15) (DayEntryUpdate None None) user2 store1 = Inr (entry1, store1) \<and>
   updated_at entry1 = 300 \<and> updated_at entry1 \<noteq> 2000"
  by (simp add: scalar_one_or_none_def select_entry_def flush_update_def store1_def entry1_def
      user2_def Let_def)

text \<open>
  Claim C4, amended. A successful \<open>update_entry\<close> sets the score to the supplied score
  and keeps it when none is supplied, and likewise for the summary; \<open>updated_at\<close> becomes
  the clock reading exactly when the stored score or summary changes and keeps its value
  otherwise; \<open>created_at\<close> is kept, and the returned entry is the one stored.
\<close>

theorem update_entry_partial:
  assumes "pk_day_entries db" and "uq_user_date db" and "e \<in> set (day_entries db)"
    and "user_id e = id_User u" and "date e = d"
  shows "\<exists>e' db'.
           update_entry now d (DayEntryUpdate sc sm) u db = Inr (e', db') \<and>
           score e' = (case sc of None \<Rightarrow> score e | Some v \<Rightarrow> v) \<and>
           summary e' = (case sm of None \<Rightarrow> summary e | Some v \<Rightarrow> v) \<and>
           updated_at e' = (if score e' = score e \<and> summary e' = summary e
                            then updated_at e else now) \<and>
           created_at e' = created_at e \<and>
           get_entry d u db' = Inr e'"
proof -
  have s: "select_entry (id_User u) d db = [e]"
    using select_entry_unique[OF assms(2,3)] assms(4,5) by simp
  define entry where "entry = (case sm of None \<Rightarrow> (case sc of None \<Rightarrow> e | Some v \<Rightarrow> e\<lparr>score := v\<rparr>)
      | Some w \<Rightarrow> (case sc of None \<Rightarrow> e | Some v \<Rightarrow> e\<lparr>score := v\<rparr>)\<lparr>summary := w\<rparr>)"
  have fields: "score entry = (case sc of None \<Rightarrow> score e | Some v \<Rightarrow> v)"
    "summary entry = (case sm of None \<Rightarrow> summary e | Some v \<Rightarrow> v)"
    "user_id entry = user_id e" "date entry = date e" "created_at entry = created_at e"
    by (simp_all add: entry_def split: option.splits)
  let ?r = "flush_update now e entry db"
  have u: "update_entry now d (DayEntryUpdate sc sm) u db = Inr ?r"
    by (simp add: scalar_one_or_none_def s entry_def Let_def split: option.splits)
  have sel: "select_entry (id_User u) d (snd ?r) = [fst ?r]"
    by (rule flush_update_select[OF assms(1) s]) (simp_all add: fields)
  have g: "get_entry d u (snd ?r) = Inr (fst ?r)"
    by (simp add: get_entry_def scalar_one_or_none_def sel)
  have f: "score (fst ?r) = score entry" "summary (fst ?r) = summary entry"
    "created_at (fst ?r) = created_at e"
    "updated_at (fst ?r) = (if score entry = score e \<and> summary entry = summary e
                            then updated_at e else now)"
    by (simp_all add: flush_update_def Let_def fields)
  have "update_entry now d (DayEntryUpdate sc sm) u db = Inr (fst ?r, snd ?r)"
    using u by simp
  with f g fields(1,2) show ?thesis
    by (intro exI[of _ "fst ?r"] exI[of _ "snd ?r"]) (simp del: update_entry.simps)
qed

theorem update_entry_partial_witness:
  "pk_day_entries store1 \<and> uq_user_date store1 \<and> entry1 \<in> set (day_entries store1) \<and>
   user_id entry1 = id_User user2 \<and> date entry1 = (2024, 1, 15) \<and>
   update_entry 2000 (2024, 1, 15) (DayEntryUpdate (Some 9) None) user2 store1
     = Inr (entry1\<lparr>score := 9, updated_at := 2000\<rparr>,
            store1\<lparr>day_entries := [entry1\<lparr>score := 9, updated_at := 2000\<rparr>]\<rparr>)"
proof -
  have h: "pk_day_entries store1" "uq_user_date store1" "entry1 \<in> set (day_entries store1)"
    "user_id entry1 = id_User user2" "date entry1 = (2024, 1, 15)"
    by (simp_all add: pk_day_entries_def uq_user_date_def store1_def entry1_def user2_def)
  from update_entry_partial [OF h, of 2000 "Some 9" None]
  obtain e' db' where
    r: "update_entry 2000 (2024, 1, 15) (DayEntryUpdate (Some 9) None) user2 store1 = Inr (e', db')"
       "score e' = 9" "summary e' = summary entry1"
    by auto
  have "update_entry 2000 (2024, 1, 15) (DayEntryUpdate (Some 9) None) user2 store1
     = Inr (entry1\<lparr>score := 9, updated_at := 2000\<rparr>,
            store1\<lparr>day_entries := [entry1\<lparr>score := 9, updated_at := 2000\<rparr>]\<rparr>)"
    by (simp add: scalar_one_or_none_def select_entry_def flush_update_def store1_def entry1_def
      user2_def Let_def)
  with h r show ?thesis by blast
qed

subsection \<open>The invariant of persisted entries\<close>

lemma hd_lstrip: "lstrip s \<noteq> [] \<Longrightarrow> \<not> isspace (hd (lstrip s))"
  unfolding lstrip_def by (rule hd_dropWhile)

lemma strip_edges:
  assumes "strip s \<noteq> []"
  shows "\<not> isspace (hd (strip s)) \<and> \<not> isspace (last (strip s))"
proof -
  let ?t = "lstrip s"
  let ?r = "dropWhile isspace (rev ?t)"
  have r: "strip s = rev ?r" by (simp add: strip_def rstrip_def)
  with assms have ne: "?r \<noteq> []" by simp
  then have l: "\<not> isspace (hd ?r)" by (rule hd_dropWhile)
  have last_eq: "last (strip s) = hd ?r" using ne by (simp add: r last_rev)
  have "?t \<noteq> []" using ne by auto
  then have t: "\<not> isspace (hd ?t)" by (rule hd_lstrip)
  have "last (rev ?t) = hd ?t" using \<open>?t \<noteq> []\<close> by (simp add: last_rev)
  moreover have "last ?r = last (rev ?t)"
    using ne by (metis last_appendR takeWhile_dropWhile_id)
  ultimately have "hd (strip s) = hd ?t" using ne by (simp add: r hd_rev)
  with t l last_eq show ?thesis by simp
qed

lemma length_strip: "length (strip s) \<le> length s"
proof -
  have "length (strip s) \<le> length (lstrip s)"
    by (simp add: strip_def rstrip_def length_dropWhile_le[of isspace "rev (lstrip s)", simplified])
  also have "\<dots> \<le> length s" by (simp add: lstrip_def length_dropWhile_le)
  finally show ?thesis .
qed

lemma valid_entry_upsert:
  assumes "\<not> (sc < 0 \<or> sc > 10)" and "\<not> (length (strip sm) = 0 \<or> length sm > 200)"
  shows "valid_entry (e\<lparr>score := sc, summary := strip sm, updated_at := t\<rparr>)"
    and "valid_entry \<lparr>id_DayEntry = i, user_id = uid, date = d, score = sc, summary = strip sm,
           created_at = t, updated_at = t\<rparr>"
proof -
  have ne: "strip sm \<noteq> []" using assms(2) by auto
  have len: "length (strip sm) \<le> 200" using assms(2) length_strip[of sm] by simp
  from ne len strip_edges[OF ne] assms(1)
  show "valid_entry (e\<lparr>score := sc, summary := strip sm, updated_at := t\<rparr>)"
    and "valid_entry \<lparr>id_DayEntry = i, user_id = uid, date = d, score = sc, summary = strip sm,
           created_at = t, updated_at = t\<rparr>"
    by (simp_all add: valid_entry_def)
qed

lemma save_day_entry_preserves_valid_entry:
  assumes "list_all valid_entry (day_entries db)"
  shows "list_all valid_entry (day_entries (store_after db (save_day_entry today now d u db sc sm)))"
proof (cases "(sc < 0 \<or> sc > 10) \<or> (length (strip sm) = 0 \<or> length sm > 200)")
  case True
  then show ?thesis using assms by (auto simp: save_day_entry_def store_after_def)
next
  case False
  then have v: "\<not> (sc < 0 \<or> sc > 10)" "\<not> (length (strip sm) = 0 \<or> length sm > 200)" by auto
  show ?thesis
  proof (cases "scalar_one_or_none (select_entry (id_User u) d db)")
    case (Inl x)
    then show ?thesis using assms v by (simp add: save_day_entry_def store_after_def)
  next
    case (Inr found)
    show ?thesis
    proof (cases found)
      case None
      show ?thesis
        using assms v Inr None valid_entry_upsert(2)[OF v]
        by (auto simp: save_day_entry_def store_after_def insert_entry_def Let_def)
    next
      case (Some loaded)
      have "list_all valid_entry (day_entries (snd (flush_update now loaded
              (loaded\<lparr>score := sc, summary := strip sm\<rparr>) db)))"
        using assms valid_entry_upsert(1)[OF v, where e = loaded and t = now]
        by (auto simp: flush_update_def Let_def list_all_iff)
      then show ?thesis
        using v Inr Some by (auto simp: save_day_entry_def store_after_def split: prod.split)
    qed
  qed
qed

text \<open>
  Claim C1, where the code departs from it. The schemas check \<open>min_length\<close> on the summary
  as sent and strip it afterwards, so a summary of one space is accepted by
  \<open>post_entries\<close> and by \<open>put_entries\<close> and is stored as the empty string: from a store
  whose entries are all valid, each of them reaches a store with an invalid entry. The
  page handler \<open>save_day_entry\<close> rejects the same input and leaves the store as it is.
\<close>

theorem blank_summary_persisted:
  "list_all valid_entry (day_entries store1) \<and>
   map summary (day_entries (store_after store1
     (post_entries 900 (2024, 1, 16) 5 '' '' user1 store1))) = [''good day'', []] \<and>
   \<not> list_all valid_entry (day_entries (store_after store1
     (post_entries 900 (2024, 1, 16) 5 '' '' user1 store1))) \<and>
   map summary (day_entries (store_after store1
     (put_entries 900 (2024, 1, 15) None (Some '' '') user2 store1))) = [[]] \<and>
   \<not> list_all valid_entry (day_entries (store_after store1
     (put_entries 900 (2024, 1, 15) None (Some '' '') user2 store1))) \<and>
   store_after store1 (save_day_entry (2024, 1, 16) 900 (2024, 1, 16) user1 store1 5 '' '') = store1"
proof -
  have v1: "list_all valid_entry (day_entries store1)"
    by (simp add: valid_entry_def store1_def entry1_def isspace_def)
  have p: "day_entries (store_after store1 (post_entries 900 (2024, 1, 16) 5 '' '' user1 store1))
      = [entry1, \<lparr>id_DayEntry = 2, user_id = 1, date = (2024, 1, 16), score = 5, summary = [],
                created_at = 900, updated_at = 900\<rparr>]"
    by (simp add: post_entries_def DayEntryCreate_validate_def strip_space scalar_one_or_none_def
        select_entry_def insert_entry_def next_id_def store_after_def store1_def entry1_def
        user1_def Let_def)
  have q: "day_entries (store_after store1
        (put_entries 900 (2024, 1, 15) None (Some '' '') user2 store1))
      = [entry1\<lparr>summary := [], updated_at := 900\<rparr>]"
    by (simp add: put_entries_def DayEntryUpdate_validate_def strip_space scalar_one_or_none_def
        select_entry_def flush_update_def store_after_def store1_def entry1_def user2_def Let_def)
  have r: "store_after store1
      (save_day_entry (2024, 1, 16) 900 (2024, 1, 16) user1 store1 5 '' '') = store1"
    by (simp add: save_day_entry_def strip_space store_after_def)
  show ?thesis
    unfolding p q r using v1 by (simp add: valid_entry_def entry1_def)
qed

subsection \<open>The calendar grid\<close>




















end
